theory Spec2Isabelle
  imports Main
begin

section \<open>The canvas element model of \<open>page.tsx\<close>\<close>

text \<open>
  The component \<open>Home\<close> keeps three pieces of React state: the array
  \<open>canvasElements\<close>, \<open>selectedElementIndex\<close> and \<open>draggingIndex\<close> (both
  \<open>number | null\<close>). Each event handler is modelled as a function from the state of
  the render it closes over to the state after the handler's setter calls.
\<close>

datatype ElementType = Text | Image | Div | List

text \<open>The string a value of the union type \<open>ElementType\<close> is at run time.\<close>

fun ElementType_str :: "ElementType \<Rightarrow> string" where
  "ElementType_str Text = ''Text''"
| "ElementType_str Image = ''Image''"
| "ElementType_str Div = ''Div''"
| "ElementType_str List = ''List''"

text \<open>
  \<open>interface CanvasElement\<close>. The field \<open>id\<close> is named \<open>elem_id\<close> and \<open>type\<close> is
  named \<open>elem_type\<close> here. \<open>style\<close> is an object used as a dictionary from property
  names to the strings the handlers store; \<open>children\<close> is optional.
\<close>

datatype CanvasElement =
  CanvasElement
    (elem_id: string)
    (elem_type: ElementType)
    (content: string)
    (style: "string \<rightharpoonup> string")
    (children: "CanvasElement list option")

text \<open>The object spreads \<open>{...el, content: v}\<close> and \<open>{...el, style: st}\<close>.\<close>

fun with_content :: "string \<Rightarrow> CanvasElement \<Rightarrow> CanvasElement" where
  "with_content v (CanvasElement i t c st ch) = CanvasElement i t v st ch"

fun with_style :: "(string \<rightharpoonup> string) \<Rightarrow> CanvasElement \<Rightarrow> CanvasElement" where
  "with_style st' (CanvasElement i t c st ch) = CanvasElement i t c st' ch"

record Home =
  canvasElements :: "CanvasElement list"
  selectedElementIndex :: "nat option"
  draggingIndex :: "nat option"

text \<open>The three \<open>useState\<close> initial values.\<close>

definition initial :: Home where
  "initial = \<lparr>canvasElements = [], selectedElementIndex = None, draggingIndex = None\<rparr>"

text \<open>
  The array is typed \<open>CanvasElement[]\<close>. Where the JavaScript, given an index that is
  not a position of the array, would leave that type or throw, the model returns the
  outcome as an error value:
  \<^item> \<open>UndefinedMoved\<close>: \<open>splice(draggingIndex, 1)\<close> removed nothing, so \<open>moved\<close> is
    \<open>undefined\<close> and \<open>undefined\<close> is spliced into the array;
  \<^item> \<open>PartialElement\<close>: \<open>updated[selectedElementIndex]\<close> is \<open>undefined\<close>, its spread is
    empty, and the object \<open>{content: value}\<close> is stored beyond the end of the array;
  \<^item> \<open>TypeError\<close>: \<open>updated[selectedElementIndex].style\<close> reads a property of
    \<open>undefined\<close>, which throws before any setter is called.
\<close>

datatype error = UndefinedMoved | PartialElement | TypeError

subsection \<open>Array.prototype.splice, as the handlers call it\<close>

text \<open>
  \<open>xs.splice(start, 1)\<close> with \<open>start \<ge> 0\<close>: the remaining array and the removed element,
  if there is one at \<open>start\<close>.
\<close>

definition splice_out :: "'a list \<Rightarrow> nat \<Rightarrow> 'a list \<times> 'a option" where
  "splice_out xs start =
     (if start < length xs then (take start xs @ drop (Suc start) xs, Some (xs ! start))
      else (xs, None))"

text \<open>
  \<open>xs.splice(start, 0, x)\<close> with \<open>start \<ge> 0\<close>: \<open>start\<close> is clamped to the length, which
  \<open>take\<close> and \<open>drop\<close> do.
\<close>

definition splice_in :: "'a list \<Rightarrow> nat \<Rightarrow> 'a \<Rightarrow> 'a list" where
  "splice_in xs start x = take start xs @ [x] @ drop start xs"

subsection \<open>The handlers\<close>

definition handleElementDragStart :: "nat \<Rightarrow> Home \<Rightarrow> Home" where
  "handleElementDragStart index s = s\<lparr>draggingIndex := Some index\<rparr>"

definition handleElementDrop :: "nat \<Rightarrow> Home \<Rightarrow> error + Home" where
  "handleElementDrop dropIndex s =
     (case draggingIndex s of
        None \<Rightarrow> Inr s
      | Some d \<Rightarrow>
          if d = dropIndex then Inr s
          else
            (case splice_out (canvasElements s) d of
               (reordered, None) \<Rightarrow> Inl UndefinedMoved
             | (reordered, Some moved) \<Rightarrow>
                 Inr (s\<lparr>canvasElements := splice_in reordered dropIndex moved,
                        draggingIndex := None\<rparr>)))"

text \<open>
  \<open>handleDrop\<close>: \<open>uuid\<close> is the string \<open>uuidv4()\<close> returns and \<open>type\<close> the payload
  \<open>e.dataTransfer.getData('type') as ElementType\<close>.
\<close>

definition newElement :: "string \<Rightarrow> ElementType \<Rightarrow> CanvasElement" where
  "newElement uuid type =
     CanvasElement uuid type (ElementType_str type @ '' Content'')
       [''fontSize'' \<mapsto> ''16px'', ''color'' \<mapsto> ''#000000'', ''padding'' \<mapsto> ''8px'']
       None"

definition handleDrop :: "string \<Rightarrow> ElementType \<Rightarrow> Home \<Rightarrow> Home" where
  "handleDrop uuid type s = s\<lparr>canvasElements := canvasElements s @ [newElement uuid type]\<rparr>"

definition setSelectedElementIndex :: "nat \<Rightarrow> Home \<Rightarrow> Home" where
  "setSelectedElementIndex index s = s\<lparr>selectedElementIndex := Some index\<rparr>"

definition handleContentChange :: "string \<Rightarrow> Home \<Rightarrow> error + Home" where
  "handleContentChange v s =
     (case selectedElementIndex s of
        None \<Rightarrow> Inr s
      | Some i \<Rightarrow>
          if i < length (canvasElements s)
          then Inr (s\<lparr>canvasElements :=
                        (canvasElements s)[i := with_content v (canvasElements s ! i)]\<rparr>)
          else Inl PartialElement)"

text \<open>The value stored by \<open>handleStyleChange\<close> for \<open>e.target.name\<close> and \<open>e.target.value\<close>.\<close>

definition newStyleValue :: "string \<Rightarrow> string \<Rightarrow> string" where
  "newStyleValue name v =
     (if name = ''fontSize'' \<or> name = ''padding'' \<or> name = ''margin'' then v @ ''px'' else v)"

definition handleStyleChange :: "string \<Rightarrow> string \<Rightarrow> Home \<Rightarrow> error + Home" where
  "handleStyleChange name v s =
     (case selectedElementIndex s of
        None \<Rightarrow> Inr s
      | Some i \<Rightarrow>
          if i < length (canvasElements s)
          then Inr (s\<lparr>canvasElements :=
                        (canvasElements s)[i :=
                           with_style ((style (canvasElements s ! i))(name \<mapsto> newStyleValue name v))
                             (canvasElements s ! i)]\<rparr>)
          else Inl TypeError)"

subsection \<open>Events of the rendered page\<close>

text \<open>
  The handlers the JSX attaches. The canvas \<open>div\<close> has \<open>onDrop={handleDrop}\<close>; every
  element of \<open>canvasElements.map((el, index) => ...)\<close> has
  \<open>onDragStart={() => handleElementDragStart(index)}\<close>,
  \<open>onDrop={() => handleElementDrop(index)}\<close> and
  \<open>onClick={() => setSelectedElementIndex(index)}\<close>; the inputs of the right sidebar
  have \<open>onChange={handleContentChange}\<close> or \<open>onChange={handleStyleChange}\<close>.
\<close>

datatype event =
    PaletteDrop string ElementType
  | ElementDragStart nat
  | ElementDrop nat
  | ElementClick nat
  | ContentChange string
  | StyleChange string string

text \<open>
  An element's handlers exist only for the indices \<open>map\<close> enumerates, those of the
  array being rendered.
\<close>

fun rendered :: "event \<Rightarrow> Home \<Rightarrow> bool" where
  "rendered (ElementDragStart index) s = (index < length (canvasElements s))"
| "rendered (ElementDrop index) s = (index < length (canvasElements s))"
| "rendered (ElementClick index) s = (index < length (canvasElements s))"
| "rendered (PaletteDrop uuid type) s = True"
| "rendered (ContentChange v) s = True"
| "rendered (StyleChange name v) s = True"

fun dispatch :: "event \<Rightarrow> Home \<Rightarrow> error + Home" where
  "dispatch (PaletteDrop uuid type) s = Inr (handleDrop uuid type s)"
| "dispatch (ElementDragStart index) s = Inr (handleElementDragStart index s)"
| "dispatch (ElementDrop index) s = handleElementDrop index s"
| "dispatch (ElementClick index) s = Inr (setSelectedElementIndex index s)"
| "dispatch (ContentChange v) s = handleContentChange v s"
| "dispatch (StyleChange name v) s = handleStyleChange name v s"

inductive reachable :: "Home \<Rightarrow> bool" where
  reachable_initial: "reachable initial"
| reachable_step: "reachable s \<Longrightarrow> rendered e s \<Longrightarrow> dispatch e s = Inr s' \<Longrightarrow> reachable s'"

subsection \<open>Index validity\<close>

text \<open>The invariant the handlers keep: both indices, when set, are positions of the array.\<close>

definition index_ok :: "nat option \<Rightarrow> Home \<Rightarrow> bool" where
  "index_ok ix s = (case ix of None \<Rightarrow> True | Some i \<Rightarrow> i < length (canvasElements s))"

definition indices_ok :: "Home \<Rightarrow> bool" where
  "indices_ok s = (index_ok (selectedElementIndex s) s \<and> index_ok (draggingIndex s) s)"

subsection \<open>Example elements and states\<close>

definition elA :: CanvasElement where "elA = newElement ''a'' Text"
definition elB :: CanvasElement where "elB = newElement ''b'' Image"
definition elC :: CanvasElement where "elC = newElement ''c'' Div"
definition elD :: CanvasElement where "elD = newElement ''d'' List"


definition canvasABCD :: "nat option \<Rightarrow> nat option \<Rightarrow> Home" where
  "canvasABCD sel drag =
     \<lparr>canvasElements = [elA, elB, elC, elD], selectedElementIndex = sel, draggingIndex = drag\<rparr>"

section \<open>Helper facts\<close>

lemma with_content_sel [simp]:
  "elem_id (with_content v el) = elem_id el"
  "elem_type (with_content v el) = elem_type el"
  "content (with_content v el) = v"
  "style (with_content v el) = style el"
  "children (with_content v el) = children el"
  by (cases el; simp)+

lemma with_style_sel [simp]:
  "elem_id (with_style st el) = elem_id el"
  "elem_type (with_style st el) = elem_type el"
  "content (with_style st el) = content el"
  "style (with_style st el) = st"
  "children (with_style st el) = children el"
  by (cases el; simp)+

lemma splice_out_in_range:
  "i < length xs \<Longrightarrow> splice_out xs i = (take i xs @ drop (Suc i) xs, Some (xs ! i))"
  by (simp add: splice_out_def)

lemma length_splice_out:
  "i < length xs \<Longrightarrow> length (fst (splice_out xs i)) = length xs - 1"
  by (simp add: splice_out_def)

lemma length_splice_in: "length (splice_in xs j x) = Suc (length xs)"
  by (simp add: splice_in_def)

lemma handleElementDrop_in_range:
  assumes "draggingIndex s = Some i" "i \<noteq> j" "i < length (canvasElements s)"
  shows "handleElementDrop j s =
           Inr (s\<lparr>canvasElements :=
                    splice_in (take i (canvasElements s) @ drop (Suc i) (canvasElements s)) j
                      (canvasElements s ! i),
                  draggingIndex := None\<rparr>)"
  using assms by (simp add: handleElementDrop_def splice_out_in_range)

lemma handleStyleChange_in_range:
  assumes "selectedElementIndex s = Some i" "i < length (canvasElements s)"
  shows "handleStyleChange name v s =
           Inr (s\<lparr>canvasElements :=
                    (canvasElements s)[i :=
                       with_style ((style (canvasElements s ! i))(name \<mapsto> newStyleValue name v))
                         (canvasElements s ! i)]\<rparr>)"
  using assms by (simp add: handleStyleChange_def)

lemma dispatch_length:
  assumes "indices_ok s" "dispatch e s = Inr s'"
  shows "length (canvasElements s) \<le> length (canvasElements s')"
proof (cases e)
  case (ElementDrop j)
  show ?thesis
  proof (cases "draggingIndex s")
    case None
    with ElementDrop assms show ?thesis by (simp add: handleElementDrop_def)
  next
    case (Some d)
    with assms(1) have d: "d < length (canvasElements s)"
      by (simp add: indices_ok_def index_ok_def)
    with Some ElementDrop assms(2) show ?thesis
      by (auto simp: handleElementDrop_def splice_out_in_range length_splice_in
               split: if_splits)
  qed
next
  case (ContentChange v)
  with assms(2) show ?thesis
    by (auto simp: handleContentChange_def split: option.splits if_splits)
next
  case (StyleChange name v)
  with assms(2) show ?thesis
    by (auto simp: handleStyleChange_def split: option.splits if_splits)
qed (use assms(2) in \<open>auto simp: handleDrop_def handleElementDragStart_def
        setSelectedElementIndex_def\<close>)

lemma dispatch_indices_ok:
  assumes "indices_ok s" "rendered e s" "dispatch e s = Inr s'"
  shows "indices_ok s'"
proof -
  have len: "length (canvasElements s) \<le> length (canvasElements s')"
    using assms(1,3) by (rule dispatch_length)
  show ?thesis
  proof (cases e)
    case (PaletteDrop uuid type)
    with assms show ?thesis
      by (auto simp: indices_ok_def index_ok_def handleDrop_def split: option.splits)
  next
    case (ElementDragStart i)
    with assms show ?thesis
      by (auto simp: indices_ok_def index_ok_def handleElementDragStart_def
               split: option.splits)
  next
    case (ElementDrop j)
    with assms(3) have "selectedElementIndex s' = selectedElementIndex s"
      and "draggingIndex s' = None \<or> draggingIndex s' = draggingIndex s"
      by (auto simp: handleElementDrop_def split: option.splits if_splits prod.splits)
    with assms(1) len show ?thesis
      by (auto simp: indices_ok_def index_ok_def split: option.splits)
  next
    case (ElementClick i)
    with assms show ?thesis
      by (auto simp: indices_ok_def index_ok_def setSelectedElementIndex_def
               split: option.splits)
  next
    case (ContentChange v)
    with assms(3) have "selectedElementIndex s' = selectedElementIndex s"
      and "draggingIndex s' = draggingIndex s"
      by (auto simp: handleContentChange_def split: option.splits if_splits)
    with assms(1) len show ?thesis
      by (auto simp: indices_ok_def index_ok_def split: option.splits)
  next
    case (StyleChange name v)
    with assms(3) have "selectedElementIndex s' = selectedElementIndex s"
      and "draggingIndex s' = draggingIndex s"
      by (auto simp: handleStyleChange_def split: option.splits if_splits)
    with assms(1) len show ?thesis
      by (auto simp: indices_ok_def index_ok_def split: option.splits)
  qed
qed

lemma reachable_indices_ok: "reachable s \<Longrightarrow> indices_ok s"
proof (induction rule: reachable.induct)
  case reachable_initial
  show ?case by (simp add: indices_ok_def index_ok_def initial_def)
next
  case (reachable_step s e s')
  then show ?case by (blast intro: dispatch_indices_ok)
qed

text \<open>
  No handler reaches one of its error outcomes from a reachable state: the typed array
  is all the page ever holds.
\<close>

lemma reachable_dispatch_total:
  assumes "reachable s" "rendered e s"
  shows "\<exists>s'. dispatch e s = Inr s'"
proof -
  from assms(1) have ok: "indices_ok s" by (rule reachable_indices_ok)
  show ?thesis
  proof (cases e)
    case (ElementDrop j)
    with ok show ?thesis
      by (auto simp: handleElementDrop_def splice_out_def indices_ok_def index_ok_def
               split: option.splits)
  next
    case (ContentChange v)
    with ok show ?thesis
      by (auto simp: handleContentChange_def indices_ok_def index_ok_def split: option.splits)
  next
    case (StyleChange name v)
    with ok show ?thesis
      by (auto simp: handleStyleChange_def indices_ok_def index_ok_def split: option.splits)
  qed simp_all
qed

lemma splice_in_nth: "j \<le> length ys \<Longrightarrow> splice_in ys j x ! j = x"
  by (simp add: splice_in_def nth_append)

lemma splice_in_remove:
  "j \<le> length ys \<Longrightarrow> take j (splice_in ys j x) @ drop (Suc j) (splice_in ys j x) = ys"
  by (simp add: splice_in_def min_def)

section \<open>Reorder drops\<close>

text \<open>
  C1. With \<open>draggingIndex\<close> set to an index \<open>i\<close> of the array and a drop on
  another index \<open>j\<close>, \<open>handleElementDrop\<close> takes the element at \<open>i\<close> out and puts it
  in at position \<open>j\<close> of the shortened array: the result has the same length, holds the
  moved element at \<open>j\<close>, and without its position \<open>j\<close> it is the original without its
  position \<open>i\<close>. Dragging index 0 of \<open>[A, B, C, D]\<close> onto index 2 gives
  \<open>[B, C, A, D]\<close>.
\<close>

theorem reorder_moves_element:
  assumes "draggingIndex s = Some i" "i \<noteq> j"
    and "i < length (canvasElements s)" "j < length (canvasElements s)"
  shows "\<exists>s'. handleElementDrop j s = Inr s' \<and>
           canvasElements s' =
             take j (take i (canvasElements s) @ drop (Suc i) (canvasElements s))
               @ [canvasElements s ! i]
               @ drop j (take i (canvasElements s) @ drop (Suc i) (canvasElements s)) \<and>
           length (canvasElements s') = length (canvasElements s) \<and>
           canvasElements s' ! j = canvasElements s ! i \<and>
           take j (canvasElements s') @ drop (Suc j) (canvasElements s') =
             take i (canvasElements s) @ drop (Suc i) (canvasElements s) \<and>
           selectedElementIndex s' = selectedElementIndex s"
proof -
  define xs where "xs = canvasElements s"
  define short where "short = take i xs @ drop (Suc i) xs"
  define res where "res = splice_in short j (xs ! i)"
  have len_short: "length short = length xs - 1"
    using assms(3) by (simp add: short_def xs_def)
  have j_le: "j \<le> length short"
    using assms(4) len_short by (simp add: xs_def)
  have drop_eq: "handleElementDrop j s =
      Inr (s\<lparr>canvasElements := res, draggingIndex := None\<rparr>)"
    using handleElementDrop_in_range [OF assms(1,2,3)]
    by (simp add: res_def short_def xs_def)
  have res_eq: "res = take j short @ [xs ! i] @ drop j short"
    by (simp add: res_def splice_in_def)
  have len_res: "length res = length xs"
    using assms(3) len_short by (simp add: res_def length_splice_in xs_def)
  have at_j: "res ! j = xs ! i"
    unfolding res_def using j_le by (rule splice_in_nth)
  have rm: "take j res @ drop (Suc j) res = short"
    unfolding res_def using j_le by (rule splice_in_remove)
  define s' where "s' = s\<lparr>canvasElements := res, draggingIndex := None\<rparr>"
  have els: "canvasElements s' = res" and sel: "selectedElementIndex s' = selectedElementIndex s"
    by (simp_all add: s'_def)
  have "handleElementDrop j s = Inr s'"
    using drop_eq by (simp only: s'_def)
  moreover have "canvasElements s' = take j short @ [xs ! i] @ drop j short"
    by (simp only: els res_eq)
  moreover have "length (canvasElements s') = length xs"
    by (simp only: els len_res)
  moreover have "canvasElements s' ! j = xs ! i"
    by (simp only: els at_j)
  moreover have "take j (canvasElements s') @ drop (Suc j) (canvasElements s') = short"
    by (simp only: els rm)
  ultimately show ?thesis
    unfolding short_def xs_def using sel by blast
qed

theorem reorder_moves_element_witness:
  "draggingIndex (canvasABCD None (Some 0)) = Some 0 \<and> (0::nat) \<noteq> 2 \<and>
   0 < length (canvasElements (canvasABCD None (Some 0))) \<and>
   2 < length (canvasElements (canvasABCD None (Some 0))) \<and>
   (\<exists>s'. handleElementDrop 2 (canvasABCD None (Some 0)) = Inr s' \<and>
      canvasElements s' = [elB, elC, elA, elD])"
  using reorder_moves_element [of "canvasABCD None (Some 0)" 0 2]
  by (auto simp: canvasABCD_def)

text \<open>
  C2. After a reorder drop, \<open>draggingIndex\<close> should be \<open>null\<close> again. The handler
  calls \<open>setDraggingIndex(null)\<close> only after a move; a drop of the dragged element on
  its own slot returns at the guard and leaves \<open>draggingIndex\<close> as it was. On
  \<open>[A, B, C, D]\<close> with index 0 being dragged, a drop on slot 0 returns the state
  unchanged, \<open>draggingIndex\<close> still 0, while a drop on slot 2 clears it.
\<close>

theorem drop_on_self_keeps_draggingIndex:
  "handleElementDrop 0 (canvasABCD None (Some 0)) = Inr (canvasABCD None (Some 0)) \<and>
   draggingIndex (canvasABCD None (Some 0)) = Some 0 \<and>
   (\<exists>s'. handleElementDrop 2 (canvasABCD None (Some 0)) = Inr s' \<and> draggingIndex s' = None)"
  by (simp add: handleElementDrop_def canvasABCD_def splice_out_def)

text \<open>
  C3. A reorder drop performed when \<open>draggingIndex\<close> is unset, or when it equals the
  drop index, leaves the elements sequence unchanged: the handler returns at its guard.
\<close>

theorem reorder_noop_elements_unchanged:
  assumes "draggingIndex s = None \<or> draggingIndex s = Some j"
  shows "\<exists>s'. handleElementDrop j s = Inr s' \<and> canvasElements s' = canvasElements s"
  using assms by (auto simp: handleElementDrop_def)

theorem reorder_noop_elements_unchanged_witness:
  "(draggingIndex (canvasABCD None (Some 1)) = None \<or>
      draggingIndex (canvasABCD None (Some 1)) = Some 1) \<and>
   (\<exists>s'. handleElementDrop 1 (canvasABCD None (Some 1)) = Inr s' \<and>
      canvasElements s' = [elA, elB, elC, elD])"
  using reorder_noop_elements_unchanged [of "canvasABCD None (Some 1)" 1]
  by (simp add: canvasABCD_def)

section \<open>Palette drops\<close>




text \<open>
  C5. A palette drop makes the array one longer, keeps every element that was there, in
  the same order, as a prefix of the new array, and changes neither
  \<open>selectedElementIndex\<close> nor \<open>draggingIndex\<close>.
\<close>

theorem palette_drop_frame:
  "length (canvasElements (handleDrop uuid type s)) = Suc (length (canvasElements s)) \<and>
   take (length (canvasElements s)) (canvasElements (handleDrop uuid type s)) = canvasElements s \<and>
   selectedElementIndex (handleDrop uuid type s) = selectedElementIndex s \<and>
   draggingIndex (handleDrop uuid type s) = draggingIndex s"
  by (simp add: handleDrop_def)

section \<open>Content and style updates\<close>

text \<open>
  C6. With nothing selected, \<open>handleContentChange\<close> and \<open>handleStyleChange\<close>, for any
  name and value, return at their guard: the state, and so every element, is unchanged.
\<close>

theorem no_selection_updates_noop:
  assumes "selectedElementIndex s = None"
  shows "handleContentChange v s = Inr s \<and> handleStyleChange name v s = Inr s"
  using assms by (simp add: handleContentChange_def handleStyleChange_def)

theorem no_selection_updates_noop_witness:
  "selectedElementIndex (canvasABCD None None) = None \<and>
   handleContentChange ''Hello'' (canvasABCD None None) = Inr (canvasABCD None None) \<and>
   handleStyleChange ''fontSize'' ''24'' (canvasABCD None None) = Inr (canvasABCD None None)"
proof -
  have h: "selectedElementIndex (canvasABCD None None) = None"
    by (simp add: canvasABCD_def)
  from no_selection_updates_noop [OF h, of "''Hello''" "''fontSize''"]
    no_selection_updates_noop [OF h, of "''24''" "''fontSize''"] h
  show ?thesis by simp
qed

text \<open>
  C7. On a selected element, a style update named \<open>fontSize\<close>, \<open>padding\<close> or
  \<open>margin\<close> stores the raw value followed by \<open>px\<close>, and a style update of any other
  name stores the raw value as it is: \<open>"20"\<close> becomes \<open>"20px"\<close> for \<open>fontSize\<close>, and
  \<open>"#ff0000"\<close> stays \<open>"#ff0000"\<close> for \<open>color\<close>.
\<close>

theorem style_update_px_normalisation:
  assumes "selectedElementIndex s = Some i" "i < length (canvasElements s)"
  shows "\<exists>s'. handleStyleChange name v s = Inr s' \<and>
           style (canvasElements s' ! i) name =
             Some (if name = ''fontSize'' \<or> name = ''padding'' \<or> name = ''margin''
                   then v @ ''px'' else v)"
  using assms by (simp add: handleStyleChange_in_range newStyleValue_def)

theorem style_update_px_normalisation_witness:
  "selectedElementIndex (canvasABCD (Some 1) None) = Some 1 \<and>
   1 < length (canvasElements (canvasABCD (Some 1) None)) \<and>
   (\<exists>s'. handleStyleChange ''fontSize'' ''20'' (canvasABCD (Some 1) None) = Inr s' \<and>
      style (canvasElements s' ! 1) ''fontSize'' = Some ''20px'') \<and>
   (\<exists>s'. handleStyleChange ''color'' ''#ff0000'' (canvasABCD (Some 1) None) = Inr s' \<and>
      style (canvasElements s' ! 1) ''color'' = Some ''#ff0000'')"
proof -
  have h1: "selectedElementIndex (canvasABCD (Some 1) None) = Some 1"
    and h2: "1 < length (canvasElements (canvasABCD (Some 1) None))"
    by (simp_all add: canvasABCD_def)
  from style_update_px_normalisation [OF h1 h2, of "''fontSize''" "''20''"]
  have a: "\<exists>s'. handleStyleChange ''fontSize'' ''20'' (canvasABCD (Some 1) None) = Inr s' \<and>
      style (canvasElements s' ! 1) ''fontSize'' = Some ''20px''"
    by simp
  from style_update_px_normalisation [OF h1 h2, of "''color''" "''#ff0000''"]
  have b: "\<exists>s'. handleStyleChange ''color'' ''#ff0000'' (canvasABCD (Some 1) None) = Inr s' \<and>
      style (canvasElements s' ! 1) ''color'' = Some ''#ff0000''"
    by simp
  from h1 h2 a b show ?thesis by (intro conjI)
qed

text \<open>
  C8. A style update of one property name changes at most that key of the selected
  element's style: every other key keeps its value, the element's id, type, content and
  children are unchanged, and so are all other elements and both indices.
\<close>

theorem style_update_frame:
  assumes "selectedElementIndex s = Some i" "i < length (canvasElements s)"
  shows "\<exists>s'. handleStyleChange name v s = Inr s' \<and>
           (\<forall>k. k \<noteq> name \<longrightarrow>
              style (canvasElements s' ! i) k = style (canvasElements s ! i) k) \<and>
           elem_id (canvasElements s' ! i) = elem_id (canvasElements s ! i) \<and>
           elem_type (canvasElements s' ! i) = elem_type (canvasElements s ! i) \<and>
           content (canvasElements s' ! i) = content (canvasElements s ! i) \<and>
           children (canvasElements s' ! i) = children (canvasElements s ! i) \<and>
           length (canvasElements s') = length (canvasElements s) \<and>
           (\<forall>m. m \<noteq> i \<longrightarrow> canvasElements s' ! m = canvasElements s ! m) \<and>
           selectedElementIndex s' = selectedElementIndex s \<and>
           draggingIndex s' = draggingIndex s"
  using assms by (simp add: handleStyleChange_in_range)

theorem style_update_frame_witness:
  "selectedElementIndex (canvasABCD (Some 1) None) = Some 1 \<and>
   1 < length (canvasElements (canvasABCD (Some 1) None)) \<and>
   (\<exists>s'. handleStyleChange ''fontWeight'' ''bold'' (canvasABCD (Some 1) None) = Inr s' \<and>
      style (canvasElements s' ! 1) ''fontSize'' = Some ''16px'' \<and>
      style (canvasElements s' ! 1) ''color'' = Some ''#000000'' \<and>
      style (canvasElements s' ! 1) ''padding'' = Some ''8px'' \<and>
      elem_id (canvasElements s' ! 1) = ''b'' \<and>
      elem_type (canvasElements s' ! 1) = Image \<and>
      content (canvasElements s' ! 1) = ''Image Content'')"
proof -
  have h1: "selectedElementIndex (canvasABCD (Some 1) None) = Some 1"
    and h2: "1 < length (canvasElements (canvasABCD (Some 1) None))"
    by (simp_all add: canvasABCD_def)
  have b: "canvasElements (canvasABCD (Some 1) None) ! 1 = elB"
    by (simp add: canvasABCD_def)
  from style_update_frame [OF h1 h2, of "''fontWeight''" "''bold''"]
  obtain s' where
    1: "handleStyleChange ''fontWeight'' ''bold'' (canvasABCD (Some 1) None) = Inr s'"
    and 2: "\<forall>k. k \<noteq> ''fontWeight'' \<longrightarrow> style (canvasElements s' ! 1) k = style elB k"
    and 3: "elem_id (canvasElements s' ! 1) = elem_id elB"
    and 4: "elem_type (canvasElements s' ! 1) = elem_type elB"
    and 5: "content (canvasElements s' ! 1) = content elB"
    unfolding b by (elim exE conjE)
  from 2 have 6: "style (canvasElements s' ! 1) ''fontSize'' = Some ''16px''"
    "style (canvasElements s' ! 1) ''color'' = Some ''#000000''"
    "style (canvasElements s' ! 1) ''padding'' = Some ''8px''"
    by (simp_all add: elB_def newElement_def)
  from 3 4 5 have 7: "elem_id (canvasElements s' ! 1) = ''b''"
    "elem_type (canvasElements s' ! 1) = Image"
    "content (canvasElements s' ! 1) = ''Image Content''"
    by (simp_all add: elB_def newElement_def)
  show ?thesis
    by (intro conjI exI [of _ s']) (rule h1 h2 1 6 7)+
qed

text \<open>
  C10. For every raw value, the empty string and non-numeric text included, a style
  update named \<open>fontSize\<close>, \<open>padding\<close> or \<open>margin\<close> stores exactly the value followed
  by \<open>px\<close>; whether the suffix is added depends on the property name alone, whatever
  the value. \<open>"abc"\<close> gives \<open>"abcpx"\<close> and \<open>""\<close> gives \<open>"px"\<close>.
\<close>

theorem px_suffix_ignores_value_shape:
  assumes "selectedElementIndex s = Some i" "i < length (canvasElements s)"
  shows "\<exists>s'. handleStyleChange name v s = Inr s' \<and>
           (name \<in> {''fontSize'', ''padding'', ''margin''} \<longrightarrow>
              style (canvasElements s' ! i) name = Some (v @ ''px'')) \<and>
           (style (canvasElements s' ! i) name = Some (v @ ''px'')) =
              (name \<in> {''fontSize'', ''padding'', ''margin''})"
  using assms by (simp add: handleStyleChange_in_range newStyleValue_def)

theorem px_suffix_ignores_value_shape_witness:
  "selectedElementIndex (canvasABCD (Some 1) None) = Some 1 \<and>
   1 < length (canvasElements (canvasABCD (Some 1) None)) \<and>
   (\<exists>s'. handleStyleChange ''fontSize'' ''abc'' (canvasABCD (Some 1) None) = Inr s' \<and>
      style (canvasElements s' ! 1) ''fontSize'' = Some ''abcpx'') \<and>
   (\<exists>s'. handleStyleChange ''margin'' [] (canvasABCD (Some 1) None) = Inr s' \<and>
      style (canvasElements s' ! 1) ''margin'' = Some ''px'')"
proof -
  have h1: "selectedElementIndex (canvasABCD (Some 1) None) = Some 1"
    and h2: "1 < length (canvasElements (canvasABCD (Some 1) None))"
    by (simp_all add: canvasABCD_def)
  from px_suffix_ignores_value_shape [OF h1 h2, of "''fontSize''" "''abc''"]
  have a: "\<exists>s'. handleStyleChange ''fontSize'' ''abc'' (canvasABCD (Some 1) None) = Inr s' \<and>
      style (canvasElements s' ! 1) ''fontSize'' = Some ''abcpx''"
    by simp
  from px_suffix_ignores_value_shape [OF h1 h2, of "''margin''" "[]"]
  have b: "\<exists>s'. handleStyleChange ''margin'' [] (canvasABCD (Some 1) None) = Inr s' \<and>
      style (canvasElements s' ! 1) ''margin'' = Some ''px''"
    by simp
  from h1 h2 a b show ?thesis by (intro conjI)
qed

section \<open>The selected index\<close>

text \<open>
  C9. In every state reached from the initial empty canvas by palette drops, element
  drag-starts, reorder drops, clicks, content updates and style updates,
  \<open>selectedElementIndex\<close> is \<open>null\<close> or an index below the length of
  \<open>canvasElements\<close>.
\<close>

theorem selected_index_valid:
  assumes "reachable s"
  shows "case selectedElementIndex s of None \<Rightarrow> True | Some i \<Rightarrow> i < length (canvasElements s)"
  using reachable_indices_ok [OF assms] by (simp add: indices_ok_def index_ok_def)

theorem selected_index_valid_witness:
  "reachable (setSelectedElementIndex 0 (handleDrop ''a'' Text initial)) \<and>
   selectedElementIndex (setSelectedElementIndex 0 (handleDrop ''a'' Text initial)) = Some 0 \<and>
   0 < length (canvasElements (setSelectedElementIndex 0 (handleDrop ''a'' Text initial)))"
proof -
  have r1: "reachable (handleDrop ''a'' Text initial)"
    by (rule reachable_step [OF reachable_initial, of "PaletteDrop ''a'' Text"]) simp_all
  have r2: "reachable (setSelectedElementIndex 0 (handleDrop ''a'' Text initial))"
    by (rule reachable_step [OF r1, of "ElementClick 0"])
       (simp_all add: handleDrop_def initial_def)
  have sel: "selectedElementIndex (setSelectedElementIndex 0 (handleDrop ''a'' Text initial)) = Some 0"
    by (simp add: setSelectedElementIndex_def)
  from selected_index_valid [OF r2] sel r2 show ?thesis by simp
qed

end
